theory Spec2Isabelle
  imports Main "HOL-Library.Word"
begin

section \<open>The rdiff command: data model\<close>

text \<open>
  The development follows \<^verbatim>\<open>rdiff/main.go\<close>. The program frames the values of the
  rsync package with \<^verbatim>\<open>encoding/gob\<close> and hands them to the package's three
  operations. Neither gob, nor \<^verbatim>\<open>crypto/md5\<close>, nor the rsync package is part of the
  file: they are collaborators, kept here as the parameters \<open>collab\<close> and as an abstract
  view of a gob stream (the sequence of values that successive \<^verbatim>\<open>Decode\<close> calls
  yield).
\<close>

type_synonym byte = "8 word"

text \<open>
  A Go \<^verbatim>\<open>[]byte\<close> is either the nil slice or a slice with contents; the program
  tests \<^verbatim>\<open>sourceSum == nil\<close>, so the difference is kept: \<open>None\<close> is nil.
\<close>

type_synonym slice = "byte list option"

definition bytes_of :: "slice \<Rightarrow> byte list" where
  "bytes_of s = (case s of None \<Rightarrow> [] | Some bs \<Rightarrow> bs)"

text \<open>\<^verbatim>\<open>bytes.Equal\<close>: a nil argument is an empty slice.\<close>

definition bytes_Equal :: "slice \<Rightarrow> slice \<Rightarrow> bool" where
  "bytes_Equal a b = (bytes_of a = bytes_of b)"

text \<open>
  Go's \<^verbatim>\<open>error\<close> values that the program creates or compares with; \<open>External\<close>
  stands for every error made by the operating system, gob or the rsync package.
  A nil error is \<open>None\<close> of \<open>error option\<close>.
\<close>

datatype error =
    EOF
  | ErrUnexpectedEOF
  | NoTargetSumError
  | HashNoMatchError
  | FileSizeDifferent
  | BytesDiffer nat
  | ErrorReadingFile error
  | External string

text \<open>The two flags, \<^verbatim>\<open>-block\<close> and \<^verbatim>\<open>-check\<close>.\<close>

record flags =
  blockSizeKiB :: int
  checkFile :: bool

text \<open>
  Modelled from the spec: the types \<^verbatim>\<open>OpType\<close>, \<^verbatim>\<open>Operation\<close>,
  \<^verbatim>\<open>BlockHash\<close> and \<^verbatim>\<open>RSync\<close> are declared in the rsync package. The program
  names the fields \<open>Type\<close>, \<open>Data\<close>, \<open>BlockSize\<close>, \<open>MaxDataOp\<close> and the
  constant \<open>HASH\<close>; the spec gives the rest: an operation copies from the basis at a
  block position, inserts literal bytes, or is the sentinel; a block hash carries the
  index, the weak and the strong checksum of a block.
\<close>

datatype OpType = BLOCK | DATA | HASH

record Operation =
  Type :: OpType
  BlockIndex :: nat
  Data :: slice

record BlockHash =
  Index :: nat
  StrongHash :: slice
  WeakHash :: nat

record RSync =
  BlockSize :: int
  MaxDataOp :: int

text \<open>
  A Go \<^verbatim>\<open>int\<close> on a 64-bit target: the product in \<open>getRsync\<close> wraps around.
\<close>

definition go_int :: "int \<Rightarrow> int" where
  "go_int n = (n + 2 ^ 63) mod 2 ^ 64 - 2 ^ 63"

definition getRsync :: "flags \<Rightarrow> RSync" where
  "getRsync fl = \<lparr>BlockSize = go_int (1024 * blockSizeKiB fl), MaxDataOp = 1024 * 1024\<rparr>"

subsection \<open>The collaborators\<close>

text \<open>
  Modelled from the spec: the sync engine and the hash. Each engine operation is a
  function of what the program hands it; the last argument says whether a hasher was
  passed (\<open>True\<close>) or nil. \<open>CreateSignature\<close> and \<open>CreateDelta\<close> yield the values they
  give to the callback, in order, and their own error; \<open>CreateDelta\<close> and \<open>ApplyDelta\<close>
  also yield the bytes they wrote to the hasher; \<open>ApplyDelta\<close> yields the bytes it
  wrote to the output file. \<open>md5_Sum\<close> is the digest \<^verbatim>\<open>hasher.Sum(nil)\<close> of the
  bytes written to an \<^verbatim>\<open>md5.New()\<close> hasher.
\<close>

record sig_run =
  sig_blocks :: "BlockHash list"
  sig_err :: "error option"

record delta_run =
  delta_ops :: "Operation list"
  delta_err :: "error option"
  delta_hashed :: "byte list"

record apply_run =
  apply_err :: "error option"
  apply_written :: "byte list"
  apply_hashed :: "byte list"

record collab =
  CreateSignature :: "RSync \<Rightarrow> byte list \<Rightarrow> sig_run"
  CreateDelta :: "RSync \<Rightarrow> byte list \<Rightarrow> BlockHash list \<Rightarrow> bool \<Rightarrow> delta_run"
  ApplyDelta :: "RSync \<Rightarrow> byte list \<Rightarrow> Operation list \<Rightarrow> bool \<Rightarrow> apply_run"
  md5_Sum :: "byte list \<Rightarrow> byte list"

subsection \<open>Framed streams\<close>

text \<open>
  A gob stream as its reader sees it: the values that successive \<^verbatim>\<open>Decode\<close> calls
  find, \<open>FBad e\<close> for a record on which \<^verbatim>\<open>Decode\<close> fails with \<open>e\<close>. At the end of
  the list \<^verbatim>\<open>Decode\<close> returns \<^verbatim>\<open>io.EOF\<close>; a value of another type than the one
  asked for is a decode error of gob.
\<close>

datatype frame = FInt int | FBlockHash BlockHash | FOp Operation | FBad error

type_synonym decoder = "frame list"

fun Decode_int :: "decoder \<Rightarrow> (error + int) \<times> decoder" where
  "Decode_int [] = (Inl EOF, [])"
| "Decode_int (FInt n # S) = (Inr n, S)"
| "Decode_int (FBad e # S) = (Inl e, S)"
| "Decode_int (f # S) = (Inl (External ''gob: type mismatch''), S)"

fun Decode_BlockHash :: "decoder \<Rightarrow> (error + BlockHash) \<times> decoder" where
  "Decode_BlockHash [] = (Inl EOF, [])"
| "Decode_BlockHash (FBlockHash b # S) = (Inr b, S)"
| "Decode_BlockHash (FBad e # S) = (Inl e, S)"
| "Decode_BlockHash (f # S) = (Inl (External ''gob: type mismatch''), S)"

fun Decode_Operation :: "decoder \<Rightarrow> (error + Operation) \<times> decoder" where
  "Decode_Operation [] = (Inl EOF, [])"
| "Decode_Operation (FOp op # S) = (Inr op, S)"
| "Decode_Operation (FBad e # S) = (Inl e, S)"
| "Decode_Operation (f # S) = (Inl (External ''gob: type mismatch''), S)"

text \<open>
  A gob encoder over a file opened by \<^verbatim>\<open>os.Create\<close>: the records written so far, and
  for each position the error, if any, with which writing the record at that position
  fails (a full disk, say).
\<close>

record encoder =
  stream :: "frame list"
  wfail :: "nat \<Rightarrow> error option"

definition Encode :: "frame \<Rightarrow> encoder \<Rightarrow> error option \<times> encoder" where
  "Encode v w =
     (case wfail w (length (stream w)) of
        Some e \<Rightarrow> (Some e, w)
      | None \<Rightarrow> (None, w\<lparr>stream := stream w @ [v]\<rparr>))"

text \<open>\<^verbatim>\<open>os.Create\<close> truncates: the encoder starts on an empty file.\<close>

definition Create :: "error + (nat \<Rightarrow> error option) \<Rightarrow> error + encoder" where
  "Create f = (case f of Inl e \<Rightarrow> Inl e | Inr fails \<Rightarrow> Inr \<lparr>stream = [], wfail = fails\<rparr>)"

section \<open>patch\<close>

text \<open>
  The decode task of \<open>patch\<close>: the goroutine that reads operations until the stream
  ends. \<open>sent\<close> is the sequence of operations it sends on the channel \<^verbatim>\<open>ops\<close>,
  \<open>sourceSum\<close> and \<open>decodeError\<close> are the two variables it shares with \<open>patch\<close>.
  The function returns where the goroutine closes the channel. The channel is
  unbuffered and has this one sender, so the engine receives the operations in the
  order of \<open>sent\<close>: all of them when it ranges over the channel until it is closed, a
  prefix when it returns early.
\<close>

record decode_task =
  sent :: "Operation list"
  sourceSum :: slice
  decodeError :: "error option"

function decode_ops :: "decoder \<Rightarrow> decode_task \<Rightarrow> decode_task" where
  "decode_ops S st =
     (case Decode_Operation S of
        (Inl e, S') \<Rightarrow> if e = EOF then st else st\<lparr>decodeError := Some e\<rparr>
      | (Inr op, S') \<Rightarrow>
          if Type op = HASH then decode_ops S' (st\<lparr>sourceSum := Data op\<rparr>)
          else decode_ops S' (st\<lparr>sent := sent st @ [op]\<rparr>))"
  by pat_completeness auto

lemma Decode_Operation_shorter:
  "Decode_Operation S = (Inr op, S') \<Longrightarrow> length S' < length S"
  by (induction S rule: Decode_Operation.induct) auto

termination decode_ops
  by (relation "measure (\<lambda>(S, st). length S)") (auto dest: Decode_Operation_shorter [OF sym])

declare decode_ops.simps [simp del]

definition decode_start :: decode_task where
  "decode_start = \<lparr>sent = [], sourceSum = None, decodeError = None\<rparr>"

text \<open>
  \<open>patch\<close> itself. The files are given as \<^verbatim>\<open>os.Open\<close> and \<^verbatim>\<open>os.Create\<close> leave
  them: an error, or the contents of the basis, the delta stream, and the fresh output
  file. The result is the returned error and what the output file holds (\<open>None\<close> when
  it was not created). \<^verbatim>\<open>ApplyDelta\<close> ranges over the channel, so when it returns
  without error the decode task has closed the channel and is over; the model runs the
  task first and hands the engine the operations sent. When \<^verbatim>\<open>ApplyDelta\<close> returns
  an error before the channel is closed, the task may still be running, and it assigns
  the variable \<^verbatim>\<open>err\<close> that \<open>patch\<close> tests next; the model takes the value tested
  there to be the one \<^verbatim>\<open>ApplyDelta\<close> returned. The properties below are about runs
  in which \<^verbatim>\<open>ApplyDelta\<close> returns no error; the one exception is the statement
  that \<open>patch\<close> does not succeed on a stream that an engine error cut short.
\<close>

definition patch ::
  "collab \<Rightarrow> flags \<Rightarrow> error + byte list \<Rightarrow> error + decoder \<Rightarrow> error + unit
     \<Rightarrow> error option \<times> byte list option" where
  "patch C fl basis delta newfile =
     (let rs = getRsync fl in
      case basis of Inl e \<Rightarrow> (Some e, None) | Inr basisFile \<Rightarrow>
     (case delta of Inl e \<Rightarrow> (Some e, None) | Inr deltaFile \<Rightarrow>
     (case newfile of Inl e \<Rightarrow> (Some e, None) | Inr fsFile \<Rightarrow>
     (case Decode_int deltaFile of
        (Inl e, S) \<Rightarrow> (Some (if e = EOF then ErrUnexpectedEOF else e), Some [])
      | (Inr n, S) \<Rightarrow>
         (let rs = rs\<lparr>BlockSize := n\<rparr>;
              task = decode_ops S decode_start;
              run = ApplyDelta C rs basisFile (sent task) (checkFile fl)
          in if apply_err run \<noteq> None then (apply_err run, Some (apply_written run))
             else if decodeError task \<noteq> None then (decodeError task, Some (apply_written run))
             else if checkFile fl = False then (None, Some (apply_written run))
             else if sourceSum task = None then (Some NoTargetSumError, Some (apply_written run))
             else if bytes_Equal (sourceSum task) (Some (md5_Sum C (apply_hashed run))) = False
               then (Some HashNoMatchError, Some (apply_written run))
             else (None, Some (apply_written run)))))))"

section \<open>signature and delta\<close>

text \<open>
  Modelled from the spec: how the engine drives a callback. It hands the callback its
  values one by one, in order; the first error of the callback aborts it and is what it
  returns; otherwise it returns its own error. The callbacks of the program encode the
  value on the output stream.
\<close>

fun emit_each ::
  "('a \<Rightarrow> encoder \<Rightarrow> error option \<times> encoder) \<Rightarrow> 'a list \<Rightarrow> encoder \<Rightarrow> error option \<times> encoder" where
  "emit_each cb [] w = (None, w)"
| "emit_each cb (x # xs) w =
     (case cb x w of (Some e, w') \<Rightarrow> (Some e, w') | (None, w') \<Rightarrow> emit_each cb xs w')"

definition run_callbacks ::
  "('a \<Rightarrow> encoder \<Rightarrow> error option \<times> encoder) \<Rightarrow> 'a list \<Rightarrow> error option \<Rightarrow> encoder
     \<Rightarrow> error option \<times> encoder" where
  "run_callbacks cb xs err w =
     (case emit_each cb xs w of (Some e, w') \<Rightarrow> (Some e, w') | (None, w') \<Rightarrow> (err, w'))"

text \<open>
  \<open>signature\<close>: the basis as \<^verbatim>\<open>os.Open\<close> leaves it, the signature file as
  \<^verbatim>\<open>os.Create\<close> leaves it. The result is the returned error and the records in the
  signature file (\<open>None\<close> when it was not created). A record whose \<^verbatim>\<open>Encode\<close>
  fails is not counted as written.
\<close>

definition signature ::
  "collab \<Rightarrow> flags \<Rightarrow> error + byte list \<Rightarrow> error + (nat \<Rightarrow> error option)
     \<Rightarrow> error option \<times> frame list option" where
  "signature C fl basis signature_file =
     (let rs = getRsync fl in
      case basis of Inl e \<Rightarrow> (Some e, None) | Inr basisFile \<Rightarrow>
     (case Create signature_file of Inl e \<Rightarrow> (Some e, None) | Inr sigFile \<Rightarrow>
     (case Encode (FInt (BlockSize rs)) sigFile of
        (Some e, sigEncode) \<Rightarrow> (Some e, Some (stream sigEncode))
      | (None, sigEncode) \<Rightarrow>
         (let run = CreateSignature C rs basisFile;
              (err, sigEncode) =
                 run_callbacks (\<lambda>block. Encode (FBlockHash block)) (sig_blocks run) (sig_err run)
                   sigEncode
          in (err, Some (stream sigEncode))))))"

text \<open>The loop of \<open>delta\<close> that loads the signature's hash list.\<close>

lemma Decode_BlockHash_shorter:
  "Decode_BlockHash S = (Inr b, S') \<Longrightarrow> length S' < length S"
  by (induction S rule: Decode_BlockHash.induct) auto

function load_hashes :: "decoder \<Rightarrow> BlockHash list \<Rightarrow> error + BlockHash list" where
  "load_hashes S hl =
     (case Decode_BlockHash S of
        (Inl e, S') \<Rightarrow> if e = EOF then Inr hl else Inl e
      | (Inr bl, S') \<Rightarrow> load_hashes S' (hl @ [bl]))"
  by pat_completeness auto
termination
  by (relation "measure (\<lambda>(S, hl). length S)") (auto dest: Decode_BlockHash_shorter [OF sym])

declare load_hashes.simps [simp del]

text \<open>
  \<open>delta\<close>: the signature stream and the new file as opened, the delta file as
  created; the result is the returned error and the records in the delta file.
\<close>

definition delta ::
  "collab \<Rightarrow> flags \<Rightarrow> error + decoder \<Rightarrow> error + byte list \<Rightarrow> error + (nat \<Rightarrow> error option)
     \<Rightarrow> error option \<times> frame list option" where
  "delta C fl signature_file newfile delta_file =
     (let rs = getRsync fl in
      case signature_file of Inl e \<Rightarrow> (Some e, None) | Inr sigFile \<Rightarrow>
     (case newfile of Inl e \<Rightarrow> (Some e, None) | Inr nfFile \<Rightarrow>
     (case Create delta_file of Inl e \<Rightarrow> (Some e, None) | Inr deltaFile \<Rightarrow>
     (case Decode_int sigFile of
        (Inl e, S) \<Rightarrow> (Some (if e = EOF then ErrUnexpectedEOF else e), Some [])
      | (Inr n, S) \<Rightarrow>
         (let rs = rs\<lparr>BlockSize := n\<rparr> in
          case load_hashes S [] of Inl e \<Rightarrow> (Some e, Some []) | Inr hl \<Rightarrow>
         (case Encode (FInt (BlockSize rs)) deltaFile of
            (Some e, opsEncode) \<Rightarrow> (Some e, Some (stream opsEncode))
          | (None, opsEncode) \<Rightarrow>
             (let run = CreateDelta C rs nfFile hl (checkFile fl);
                  (err, opsEncode) =
                     run_callbacks (\<lambda>op. Encode (FOp op)) (delta_ops run) (delta_err run) opsEncode
              in if err \<noteq> None then (err, Some (stream opsEncode))
                 else if checkFile fl then
                   (let (err, opsEncode) =
                      Encode (FOp \<lparr>Type = HASH, BlockIndex = 0,
                                   Data = Some (md5_Sum C (delta_hashed run))\<rparr>) opsEncode
                    in (err, Some (stream opsEncode)))
                 else (None, Some (stream opsEncode)))))))))"

section \<open>test\<close>

text \<open>
  A file as \<open>test\<close> meets it: what \<^verbatim>\<open>Stat\<close> answers, the contents, and how the
  operating system cuts the contents into reads: the \<open>k\<close>-th \<^verbatim>\<open>Read\<close> delivers at
  most \<open>reads ! k\<close> bytes, and a full buffer once the list is used up. A \<^verbatim>\<open>Read\<close>
  delivers what is left of the file, at most the 32 KiB of the buffer, and at the end
  of the file 0 bytes and \<^verbatim>\<open>io.EOF\<close>. Reads that fail with another error are not
  part of the model, nor is the pool of buffers: a reader holds at most eleven of its
  thirty buffers and the merge loop two, so no task waits for a buffer forever. Each
  channel has one sender, so the merge loop receives the chunks of a file in the order
  read. \<^verbatim>\<open>location\<close> counts the bytes compared, at most the size \<^verbatim>\<open>Stat\<close>
  reported; it is a natural number here.
\<close>

record os_file =
  Stat_Size :: "error + int"
  contents :: "byte list"
  reads :: "nat list"

definition min_go :: "nat \<Rightarrow> nat \<Rightarrow> nat" where
  "min_go a b = (if a < b then a else b)"

text \<open>
  The closure \<open>reader\<close>: the chunks it sends on its channel before it closes it. A
  read of 0 bytes puts the buffer back and sends nothing.
\<close>

function reader :: "byte list \<Rightarrow> nat list \<Rightarrow> byte list list" where
  "reader f sched =
     (if f = [] then []
      else (case sched of
              [] \<Rightarrow> take (32 * 1024) f # reader (drop (32 * 1024) f) []
            | k # ks \<Rightarrow>
               (let n = min k (min (32 * 1024) (length f))
                in if n = 0 then reader f ks else take n f # reader (drop n f) ks)))"
  by pat_completeness auto
termination
  by (relation "measure (\<lambda>(f, sched). length f + length sched)") auto

declare reader.simps [simp del]

text \<open>The inner loop over \<open>i\<close>: the first differing byte, or the new location.\<close>

function cmp_bytes :: "nat \<Rightarrow> nat \<Rightarrow> byte list \<Rightarrow> byte list \<Rightarrow> nat \<Rightarrow> error + nat" where
  "cmp_bytes i sz b1 b2 location =
     (if i < sz then
        (if b1 ! i \<noteq> b2 ! i then Inl (BytesDiffer location)
         else cmp_bytes (i + 1) sz b1 b2 (location + 1))
      else Inr location)"
  by pat_completeness auto
termination
  by (relation "measure (\<lambda>(i, sz, b1, b2, location). sz - i)") auto

declare cmp_bytes.simps [simp del]

text \<open>
  Receiving the next chunk of one side: the buffer in hand while it has bytes left,
  else the next chunk of the channel, \<open>None\<close> when the channel is closed and empty.
\<close>

definition next_chunk :: "byte list \<Rightarrow> byte list list \<Rightarrow> (byte list \<times> byte list list) option" where
  "next_chunk buf source =
     (if length buf = 0 then (case source of [] \<Rightarrow> None | c # q \<Rightarrow> Some (c, q))
      else Some (buf, source))"

lemma next_chunk_measure:
  "next_chunk buf source = Some (buf', source') \<Longrightarrow>
     length buf' + length (concat source') + length source'
       \<le> length buf + length (concat source) + length source
     \<and> (buf = [] \<longrightarrow> length buf' + length (concat source') + length source'
                     < length buf + length (concat source) + length source)
     \<and> (buf \<noteq> [] \<longrightarrow> buf' = buf)"
  by (auto simp: next_chunk_def split: if_splits list.splits)

text \<open>The merge loop of \<open>test\<close>.\<close>

function compare_loop ::
  "nat \<Rightarrow> byte list \<Rightarrow> byte list \<Rightarrow> byte list list \<Rightarrow> byte list list \<Rightarrow> error option" where
  "compare_loop location b1 b2 b1Source b2Source =
     (case next_chunk b1 b1Source of None \<Rightarrow> None | Some (b1, b1Source) \<Rightarrow>
     (case next_chunk b2 b2Source of None \<Rightarrow> None | Some (b2, b2Source) \<Rightarrow>
       (let sz = min_go (length b1) (length b2) in
        case cmp_bytes 0 sz b1 b2 location of
          Inl e \<Rightarrow> Some e
        | Inr location \<Rightarrow> compare_loop location (drop sz b1) (drop sz b2) b1Source b2Source)))"
  by pat_completeness auto
termination
proof (relation "measure (\<lambda>(location, b1, b2, q1, q2).
    length b1 + length (concat q1) + length q1 + (length b2 + length (concat q2) + length q2))",
    goal_cases)
  case 1
  then show ?case by simp
next
  case (2 location b1 b2 q1 q2 x1 c1 q1' x2 c2 q2' sz location')
  from 2 have n1: "next_chunk b1 q1 = Some (c1, q1')" and n2: "next_chunk b2 q2 = Some (c2, q2')"
    by simp_all
  note m1 = next_chunk_measure [OF n1] and m2 = next_chunk_measure [OF n2]
  from 2 have sz: "sz = min_go (length c1) (length c2)" by simp
  show ?case
  proof (cases "b1 = [] \<or> b2 = []")
    case True
    with m1 m2 show ?thesis by auto
  next
    case False
    with m1 m2 have "c1 = b1" "c2 = b2" by auto
    moreover from m1 m2
    have "length (concat q1') + length q1' \<le> length (concat q1) + length q1"
      and "length (concat q2') + length q2' \<le> length (concat q2) + length q2"
      using \<open>c1 = b1\<close> \<open>c2 = b2\<close> by auto
    ultimately show ?thesis using sz False
      by (cases b1; cases b2) (auto simp: min_go_def)
  qed
qed

declare compare_loop.simps [simp del]

definition test :: "error + os_file \<Rightarrow> error + os_file \<Rightarrow> error option" where
  "test basis1 basis2 =
     (case basis1 of Inl e \<Rightarrow> Some e | Inr basis1File \<Rightarrow>
     (case basis2 of Inl e \<Rightarrow> Some e | Inr basis2File \<Rightarrow>
     (case Stat_Size basis1File of Inl e \<Rightarrow> Some e | Inr size1 \<Rightarrow>
     (case Stat_Size basis2File of Inl e \<Rightarrow> Some e | Inr size2 \<Rightarrow>
        if size1 \<noteq> size2 then Some FileSizeDifferent
        else compare_loop 0 [] [] (reader (contents basis1File) (reads basis1File))
               (reader (contents basis2File) (reads basis2File))))))"

section \<open>Reading the model\<close>

subsection \<open>What a stream decodes to\<close>

text \<open>
  For stating properties of the decode task: \<open>decoded S\<close> is the list of operations
  that successive \<^verbatim>\<open>Decode\<close> calls return from \<open>S\<close> before the first call that
  fails, \<open>decode_end S\<close> is the error of that call (\<open>EOF\<close> at the end of the
  stream), and \<open>last_sum ops\<close> is the payload of the last sentinel among \<open>ops\<close>,
  nil when there is none.
\<close>

function decoded :: "decoder \<Rightarrow> Operation list" where
  "decoded S =
     (case Decode_Operation S of (Inl e, S') \<Rightarrow> [] | (Inr op, S') \<Rightarrow> op # decoded S')"
  by pat_completeness auto
termination
  by (relation "measure length") (auto dest: Decode_Operation_shorter [OF sym])

function decode_end :: "decoder \<Rightarrow> error" where
  "decode_end S =
     (case Decode_Operation S of (Inl e, S') \<Rightarrow> e | (Inr op, S') \<Rightarrow> decode_end S')"
  by pat_completeness auto
termination
  by (relation "measure length") (auto dest: Decode_Operation_shorter [OF sym])

declare decoded.simps [simp del] decode_end.simps [simp del]

definition is_sentinel :: "Operation \<Rightarrow> bool" where
  "is_sentinel op = (Type op = HASH)"

definition last_sum :: "Operation list \<Rightarrow> slice" where
  "last_sum ops = (case filter is_sentinel ops of [] \<Rightarrow> None | h # hs \<Rightarrow> Data (last (h # hs)))"

text \<open>
  For stating what \<open>test\<close> reports: the first position at which two byte sequences
  differ, within their common length.
\<close>

fun first_diff :: "byte list \<Rightarrow> byte list \<Rightarrow> nat option" where
  "first_diff (x # xs) (y # ys) = (if x \<noteq> y then Some 0 else map_option Suc (first_diff xs ys))"
| "first_diff xs ys = None"

text \<open>The stream without its sentinel records.\<close>

definition drop_sentinels :: "decoder \<Rightarrow> decoder" where
  "drop_sentinels S = filter (\<lambda>f. case f of FOp op \<Rightarrow> \<not> is_sentinel op | _ \<Rightarrow> True) S"

text \<open>
  An instance of the collaborators, for evaluating the theorems at concrete inputs: an
  engine that sends the new file as one literal operation and rebuilds a file from the
  literal payloads, with a stand-in digest.
\<close>

definition literal_engine :: collab where
  "literal_engine =
     \<lparr>CreateSignature = (\<lambda>rs basis.
        \<lparr>sig_blocks = [\<lparr>Index = 0, StrongHash = Some basis, WeakHash = length basis\<rparr>],
         sig_err = None\<rparr>),
      CreateDelta = (\<lambda>rs new hl h.
        \<lparr>delta_ops = [\<lparr>Type = DATA, BlockIndex = 0, Data = Some new\<rparr>], delta_err = None,
         delta_hashed = new\<rparr>),
      ApplyDelta = (\<lambda>rs basis ops h.
        \<lparr>apply_err = None, apply_written = concat (map (\<lambda>op. bytes_of (Data op)) ops),
         apply_hashed = concat (map (\<lambda>op. bytes_of (Data op)) ops)\<rparr>),
      md5_Sum = (\<lambda>bs. of_nat (length bs) # bs)\<rparr>"

text \<open>The same with a delta generator that fails after its first operation.\<close>

definition failing_engine :: collab where
  "failing_engine =
     literal_engine\<lparr>CreateDelta := (\<lambda>rs new hl h.
        \<lparr>delta_ops = [\<lparr>Type = DATA, BlockIndex = 0, Data = Some (take 1 new)\<rparr>],
         delta_err = Some (External ''read error''), delta_hashed = take 1 new\<rparr>)\<rparr>"

subsection \<open>The decode task, step by step\<close>

lemma decoded_Cons [simp]:
  "decoded [] = []"
  "decoded (FOp op # S) = op # decoded S"
  "decoded (FBad e # S) = []"
  "decoded (FInt n # S) = []"
  "decoded (FBlockHash b # S) = []"
  by (simp_all add: decoded.simps)

lemma decode_end_Cons [simp]:
  "decode_end [] = EOF"
  "decode_end (FOp op # S) = decode_end S"
  "decode_end (FBad e # S) = e"
  "decode_end (FInt n # S) = External ''gob: type mismatch''"
  "decode_end (FBlockHash b # S) = External ''gob: type mismatch''"
  by (simp_all add: decode_end.simps)

lemma decode_ops_Cons [simp]:
  "decode_ops [] st = st"
  "decode_ops (FOp op # S) st =
     (if is_sentinel op then decode_ops S (st\<lparr>sourceSum := Data op\<rparr>)
      else decode_ops S (st\<lparr>sent := sent st @ [op]\<rparr>))"
  "decode_ops (FBad e # S) st = (if e = EOF then st else st\<lparr>decodeError := Some e\<rparr>)"
  "decode_ops (FInt n # S) st = st\<lparr>decodeError := Some (External ''gob: type mismatch'')\<rparr>"
  "decode_ops (FBlockHash b # S) st = st\<lparr>decodeError := Some (External ''gob: type mismatch'')\<rparr>"
  by (simp_all add: decode_ops.simps is_sentinel_def)

lemma last_sum_simps [simp]:
  "last_sum [] = None"
  "last_sum (op # ops) =
     (if filter is_sentinel ops = [] then (if is_sentinel op then Data op else None)
      else last_sum ops)"
  by (auto simp add: last_sum_def split: list.splits)

lemma sent_decode_ops:
  "sent (decode_ops S st) = sent st @ filter (\<lambda>op. \<not> is_sentinel op) (decoded S)"
proof (induction S arbitrary: st)
  case Nil
  then show ?case by simp
next
  case (Cons f S)
  then show ?case by (cases f) simp_all
qed

lemma sourceSum_decode_ops:
  "sourceSum (decode_ops S st) =
     (if filter is_sentinel (decoded S) = [] then sourceSum st else last_sum (decoded S))"
proof (induction S arbitrary: st)
  case Nil
  then show ?case by simp
next
  case (Cons f S)
  then show ?case by (cases f) simp_all
qed

lemma decodeError_decode_ops:
  "decodeError (decode_ops S st) =
     (if decode_end S = EOF then decodeError st else Some (decode_end S))"
proof (induction S arbitrary: st)
  case Nil
  then show ?case by simp
next
  case (Cons f S)
  then show ?case by (cases f) simp_all
qed

lemma task_start [simp]:
  "sent (decode_ops S decode_start) = filter (\<lambda>op. \<not> is_sentinel op) (decoded S)"
  "sourceSum (decode_ops S decode_start) = last_sum (decoded S)"
  "decodeError (decode_ops S decode_start) =
     (if decode_end S = EOF then None else Some (decode_end S))"
  by (simp_all add: sent_decode_ops sourceSum_decode_ops decodeError_decode_ops
      decode_start_def last_sum_def)

lemma decoded_drop_sentinels [simp]:
  "decoded (drop_sentinels S) = filter (\<lambda>op. \<not> is_sentinel op) (decoded S)"
proof (induction S)
  case Nil
  then show ?case by (simp add: drop_sentinels_def)
next
  case (Cons f S)
  then show ?case by (cases f) (simp_all add: drop_sentinels_def)
qed

lemma decode_end_drop_sentinels [simp]: "decode_end (drop_sentinels S) = decode_end S"
proof (induction S)
  case Nil
  then show ?case by (simp add: drop_sentinels_def)
next
  case (Cons f S)
  then show ?case by (cases f) (simp_all add: drop_sentinels_def)
qed

text \<open>A run of \<open>patch\<close> that opened its files and decoded the header \<open>n\<close>.\<close>

lemma patch_run:
  "patch C fl (Inr B) (Inr (FInt n # S)) (Inr u) =
     (let task = decode_ops S decode_start;
          run = ApplyDelta C ((getRsync fl)\<lparr>BlockSize := n\<rparr>) B (sent task) (checkFile fl)
      in if apply_err run \<noteq> None then (apply_err run, Some (apply_written run))
         else if decodeError task \<noteq> None then (decodeError task, Some (apply_written run))
         else if checkFile fl = False then (None, Some (apply_written run))
         else if sourceSum task = None then (Some NoTargetSumError, Some (apply_written run))
         else if bytes_Equal (sourceSum task) (Some (md5_Sum C (apply_hashed run))) = False
           then (Some HashNoMatchError, Some (apply_written run))
         else (None, Some (apply_written run)))"
  by (simp add: patch_def Let_def)

subsection \<open>The sentinel is captured, the other operations are forwarded\<close>

text \<open>
  Claim C5. Each decoded operation is handled by one step of the decode task: a
  sentinel is stored in \<open>sourceSum\<close>, is not sent, and the task goes on with the rest
  of the stream; any other operation is appended to what was sent. Over the whole
  stream, the operations sent on the channel are the decoded operations without the
  sentinels, in the order decoded, and \<open>sourceSum\<close> ends as the payload of the last
  sentinel.
\<close>

theorem decode_task_filters_sentinel:
  "decode_ops (FOp op # S) st =
     (if Type op = HASH then decode_ops S (st\<lparr>sourceSum := Data op\<rparr>)
      else decode_ops S (st\<lparr>sent := sent st @ [op]\<rparr>))
   \<and> sent (decode_ops S decode_start) = filter (\<lambda>op. Type op \<noteq> HASH) (decoded S)
   \<and> sourceSum (decode_ops S decode_start) = last_sum (decoded S)"
  by (simp add: is_sentinel_def)

subsection \<open>A decode error is returned\<close>

text \<open>
  Claim C6. When decoding the operations stops at an error other than the end of the
  stream and \<^verbatim>\<open>ApplyDelta\<close>, run on the operations sent before it, returns no error,
  \<open>patch\<close> returns the decode error.
\<close>

theorem patch_returns_decode_error:
  fixes C fl n S B
  defines "run \<equiv> ApplyDelta C ((getRsync fl)\<lparr>BlockSize := n\<rparr>) B
                    (filter (\<lambda>op. Type op \<noteq> HASH) (decoded S)) (checkFile fl)"
  assumes "decode_end S \<noteq> EOF" and "apply_err run = None"
  shows "patch C fl (Inr B) (Inr (FInt n # S)) (Inr ()) =
           (Some (decode_end S), Some (apply_written run))"
  using assms by (simp add: patch_run Let_def is_sentinel_def)

theorem patch_returns_decode_error_witness:
  "patch literal_engine \<lparr>blockSizeKiB = 6, checkFile = True\<rparr> (Inr [7])
     (Inr [FInt 6144, FOp \<lparr>Type = DATA, BlockIndex = 0, Data = Some [1, 2]\<rparr>,
           FBad (External ''corrupt'')]) (Inr ()) =
   (Some (External ''corrupt''), Some [1, 2])"
proof -
  let ?S = "[FOp \<lparr>Type = DATA, BlockIndex = 0, Data = Some [1, 2 :: byte]\<rparr>,
             FBad (External ''corrupt'')]"
  have h1: "decode_end ?S \<noteq> EOF" by simp
  have h2: "apply_err (ApplyDelta literal_engine
              ((getRsync \<lparr>blockSizeKiB = 6, checkFile = True\<rparr>)\<lparr>BlockSize := 6144\<rparr>) [7]
              (filter (\<lambda>op. Type op \<noteq> HASH) (decoded ?S))
              (checkFile \<lparr>blockSizeKiB = 6, checkFile = True\<rparr>)) = None"
    by (simp add: literal_engine_def)
  show ?thesis
    using patch_returns_decode_error [OF h1 h2]
    by (simp add: literal_engine_def bytes_of_def)
qed

subsection \<open>The integrity check\<close>

text \<open>
  Claim C1, as the code has it. In a run of \<open>patch\<close> with the check enabled in which
  decoding ends at the end of the stream and \<^verbatim>\<open>ApplyDelta\<close> returns no error: when
  the checksum captured is nil (no sentinel was decoded, or the last sentinel decoded
  carries a nil payload) \<open>patch\<close> returns \<open>NoTargetSumError\<close>; when the last
  sentinel's payload is not nil and differs from the digest of the bytes hashed,
  \<open>patch\<close> returns \<open>HashNoMatchError\<close>; when it equals the digest, \<open>patch\<close>
  returns no error.
\<close>

theorem patch_check_outcome:
  fixes C fl n S B
  defines "run \<equiv> ApplyDelta C ((getRsync fl)\<lparr>BlockSize := n\<rparr>) B
                    (filter (\<lambda>op. Type op \<noteq> HASH) (decoded S)) True"
  assumes "checkFile fl" and "decode_end S = EOF" and "apply_err run = None"
  shows "fst (patch C fl (Inr B) (Inr (FInt n # S)) (Inr ())) =
           (case last_sum (decoded S) of
              None \<Rightarrow> Some NoTargetSumError
            | Some s \<Rightarrow> if s = md5_Sum C (apply_hashed run) then None else Some HashNoMatchError)"
  using assms
  by (simp add: patch_run Let_def is_sentinel_def bytes_Equal_def bytes_of_def split: option.splits)

theorem patch_check_outcome_witness:
  "fst (patch literal_engine \<lparr>blockSizeKiB = 6, checkFile = True\<rparr> (Inr [7])
     (Inr [FInt 6144, FOp \<lparr>Type = DATA, BlockIndex = 0, Data = Some [1, 2]\<rparr>,
           FOp \<lparr>Type = HASH, BlockIndex = 0, Data = Some [2, 1, 2]\<rparr>]) (Inr ())) = None
   \<and> fst (patch literal_engine \<lparr>blockSizeKiB = 6, checkFile = True\<rparr> (Inr [7])
     (Inr [FInt 6144, FOp \<lparr>Type = DATA, BlockIndex = 0, Data = Some [1, 2]\<rparr>,
           FOp \<lparr>Type = HASH, BlockIndex = 0, Data = Some [9]\<rparr>]) (Inr ())) = Some HashNoMatchError
   \<and> fst (patch literal_engine \<lparr>blockSizeKiB = 6, checkFile = True\<rparr> (Inr [7])
     (Inr [FInt 6144, FOp \<lparr>Type = DATA, BlockIndex = 0, Data = Some [1, 2]\<rparr>]) (Inr ())) =
       Some NoTargetSumError"
proof -
  let ?fl = "\<lparr>blockSizeKiB = 6, checkFile = True\<rparr>"
  let ?d = "FOp \<lparr>Type = DATA, BlockIndex = 0, Data = Some [1, 2 :: byte]\<rparr>"
  have c: "checkFile ?fl" by simp
  have a: "apply_err (ApplyDelta literal_engine ((getRsync ?fl)\<lparr>BlockSize := 6144\<rparr>) [7]
             (filter (\<lambda>op. Type op \<noteq> HASH) (decoded S)) True) = None" for S
    by (simp add: literal_engine_def)
  have e1: "decode_end [?d, FOp \<lparr>Type = HASH, BlockIndex = 0, Data = Some [2, 1, 2]\<rparr>] = EOF"
    and e2: "decode_end [?d, FOp \<lparr>Type = HASH, BlockIndex = 0, Data = Some [9]\<rparr>] = EOF"
    and e3: "decode_end [?d] = EOF"
    by simp_all
  show ?thesis
    using patch_check_outcome [OF c e1 a] patch_check_outcome [OF c e2 a]
      patch_check_outcome [OF c e3 a]
    by (simp add: literal_engine_def bytes_of_def is_sentinel_def)
qed

text \<open>
  The claim as first stated gives \<open>HashNoMatchError\<close> whenever a sentinel was captured
  and its payload differs from the digest. A sentinel with a nil payload is captured by
  the decode task, differs from every digest, and leads to \<open>NoTargetSumError\<close>.
\<close>

theorem patch_nil_sentinel_counterexample:
  "decode_end [FOp \<lparr>Type = HASH, BlockIndex = 0, Data = None\<rparr>] = EOF
   \<and> apply_err (ApplyDelta literal_engine
        ((getRsync \<lparr>blockSizeKiB = 6, checkFile = True\<rparr>)\<lparr>BlockSize := 6144\<rparr>) []
        (sent (decode_ops [FOp \<lparr>Type = HASH, BlockIndex = 0, Data = None\<rparr>] decode_start))
        True) = None
   \<and> filter (\<lambda>op. Type op = HASH) (decoded [FOp \<lparr>Type = HASH, BlockIndex = 0, Data = None\<rparr>]) =
        [\<lparr>Type = HASH, BlockIndex = 0, Data = None\<rparr>]
   \<and> bytes_Equal (Data \<lparr>Type = HASH, BlockIndex = 0, Data = None\<rparr>)
        (Some (md5_Sum literal_engine (apply_hashed (ApplyDelta literal_engine
          ((getRsync \<lparr>blockSizeKiB = 6, checkFile = True\<rparr>)\<lparr>BlockSize := 6144\<rparr>) []
          (sent (decode_ops [FOp \<lparr>Type = HASH, BlockIndex = 0, Data = None\<rparr>] decode_start))
          True)))) = False
   \<and> fst (patch literal_engine \<lparr>blockSizeKiB = 6, checkFile = True\<rparr> (Inr [])
        (Inr [FInt 6144, FOp \<lparr>Type = HASH, BlockIndex = 0, Data = None\<rparr>]) (Inr ())) =
        Some NoTargetSumError"
  by (simp add: patch_run Let_def literal_engine_def bytes_Equal_def bytes_of_def is_sentinel_def
      decode_start_def)

subsection \<open>The check disabled\<close>

text \<open>
  Claim C10, as the code has it. In a run of \<open>patch\<close> with the check disabled the
  sentinels are still kept from the engine; when \<^verbatim>\<open>ApplyDelta\<close> returns no error,
  the result and the output are those of the same run on the stream without its
  sentinels, so neither the presence of a sentinel nor its payload matters; and when
  moreover decoding ends at the end of the stream, \<open>patch\<close> returns no error and the
  output is what the engine wrote.
\<close>

theorem patch_unchecked:
  fixes C fl n S B
  defines "run \<equiv> ApplyDelta C ((getRsync fl)\<lparr>BlockSize := n\<rparr>) B
                    (filter (\<lambda>op. Type op \<noteq> HASH) (decoded S)) False"
  assumes "checkFile fl = False"
  shows "sent (decode_ops S decode_start) = filter (\<lambda>op. Type op \<noteq> HASH) (decoded S)
       \<and> (apply_err run = None \<longrightarrow>
            patch C fl (Inr B) (Inr (FInt n # S)) (Inr ()) =
            patch C fl (Inr B) (Inr (FInt n # drop_sentinels S)) (Inr ()))
       \<and> (decode_end S = EOF \<and> apply_err run = None \<longrightarrow>
            patch C fl (Inr B) (Inr (FInt n # S)) (Inr ()) = (None, Some (apply_written run)))"
  using assms by (simp add: patch_run Let_def is_sentinel_def)

theorem patch_unchecked_witness:
  "patch literal_engine \<lparr>blockSizeKiB = 6, checkFile = False\<rparr> (Inr [7])
     (Inr [FInt 6144, FOp \<lparr>Type = DATA, BlockIndex = 0, Data = Some [1, 2]\<rparr>,
           FOp \<lparr>Type = HASH, BlockIndex = 0, Data = Some [9]\<rparr>]) (Inr ()) = (None, Some [1, 2])
   \<and> patch literal_engine \<lparr>blockSizeKiB = 6, checkFile = False\<rparr> (Inr [7])
     (Inr [FInt 6144, FOp \<lparr>Type = DATA, BlockIndex = 0, Data = Some [1, 2]\<rparr>]) (Inr ()) =
       (None, Some [1, 2])"
proof -
  let ?fl = "\<lparr>blockSizeKiB = 6, checkFile = False\<rparr>"
  let ?d = "FOp \<lparr>Type = DATA, BlockIndex = 0, Data = Some [1, 2 :: byte]\<rparr>"
  let ?S = "[?d, FOp \<lparr>Type = HASH, BlockIndex = 0, Data = Some [9]\<rparr>]"
  let ?run = "ApplyDelta literal_engine ((getRsync ?fl)\<lparr>BlockSize := 6144\<rparr>) [7]
                (filter (\<lambda>op. Type op \<noteq> HASH) (decoded ?S)) False"
  have c: "checkFile ?fl = False" by simp
  have e: "decode_end ?S = EOF" by simp
  have a: "apply_err ?run = None" by (simp add: literal_engine_def)
  have w: "apply_written ?run = [1, 2]" by (simp add: literal_engine_def bytes_of_def)
  have d: "drop_sentinels ?S = [?d]" by (simp add: drop_sentinels_def is_sentinel_def)
  from patch_unchecked [OF c, where S = ?S and C = literal_engine and n = 6144 and B = "[7]"] e a
  have "patch literal_engine ?fl (Inr [7]) (Inr (FInt 6144 # ?S)) (Inr ()) =
          patch literal_engine ?fl (Inr [7]) (Inr (FInt 6144 # drop_sentinels ?S)) (Inr ())"
    and "patch literal_engine ?fl (Inr [7]) (Inr (FInt 6144 # ?S)) (Inr ()) =
          (None, Some (apply_written ?run))"
    by blast+
  with w d show ?thesis by simp
qed

text \<open>
  The claim as first stated promises success after every error-free apply. A stream
  with a record that fails to decode makes \<open>patch\<close> return the decode error, with the
  check disabled too.
\<close>

theorem patch_unchecked_decode_error_counterexample:
  "apply_err (ApplyDelta literal_engine
      ((getRsync \<lparr>blockSizeKiB = 6, checkFile = False\<rparr>)\<lparr>BlockSize := 6144\<rparr>) [7]
      (sent (decode_ops [FOp \<lparr>Type = DATA, BlockIndex = 0, Data = Some [1, 2]\<rparr>,
                         FBad (External ''corrupt'')] decode_start)) False) = None
   \<and> fst (patch literal_engine \<lparr>blockSizeKiB = 6, checkFile = False\<rparr> (Inr [7])
       (Inr [FInt 6144, FOp \<lparr>Type = DATA, BlockIndex = 0, Data = Some [1, 2]\<rparr>,
             FBad (External ''corrupt'')]) (Inr ())) = Some (External ''corrupt'')"
  by (simp add: patch_run Let_def literal_engine_def is_sentinel_def decode_start_def)

section \<open>Properties of signature and delta\<close>

lemma Encode_simps:
  "wfail w (length (stream w)) = None \<Longrightarrow> Encode v w = (None, w\<lparr>stream := stream w @ [v]\<rparr>)"
  "wfail w (length (stream w)) = Some e \<Longrightarrow> Encode v w = (Some e, w)"
  by (simp_all add: Encode_def)

lemma emit_each_Encode:
  "emit_each (\<lambda>x. Encode (F x)) xs w = (r, w') \<Longrightarrow>
     \<exists>k. stream w' = stream w @ map F (take k xs) \<and> wfail w' = wfail w
         \<and> (r = None \<longrightarrow> k = length xs)"
proof (induction xs arbitrary: w)
  case Nil
  then show ?case by simp
next
  case (Cons x xs)
  show ?case
  proof (cases "wfail w (length (stream w))")
    case None
    with Cons.prems
    have "emit_each (\<lambda>x. Encode (F x)) xs (w\<lparr>stream := stream w @ [F x]\<rparr>) = (r, w')"
      by (simp add: Encode_simps)
    from Cons.IH [OF this] obtain k where
      "stream w' = (stream w @ [F x]) @ map F (take k xs)" "wfail w' = wfail w"
      "r = None \<longrightarrow> k = length xs"
      by auto
    then have "stream w' = stream w @ map F (take (Suc k) (x # xs)) \<and> wfail w' = wfail w
         \<and> (r = None \<longrightarrow> Suc k = length (x # xs))"
      by simp
    then show ?thesis by blast
  next
    case (Some e)
    with Cons.prems have "w' = w" "r = Some e" by (simp_all add: Encode_simps)
    then have "stream w' = stream w @ map F (take 0 (x # xs)) \<and> wfail w' = wfail w
         \<and> (r = None \<longrightarrow> 0 = length (x # xs))"
      by simp
    then show ?thesis by blast
  qed
qed

lemma run_callbacks_Encode:
  "run_callbacks (\<lambda>x. Encode (F x)) xs err w = (r, w') \<Longrightarrow>
     \<exists>k. stream w' = stream w @ map F (take k xs) \<and> wfail w' = wfail w
         \<and> (r = None \<longrightarrow> k = length xs)"
proof -
  assume a: "run_callbacks (\<lambda>x. Encode (F x)) xs err w = (r, w')"
  obtain r0 w0 where e: "emit_each (\<lambda>x. Encode (F x)) xs w = (r0, w0)"
    by (cases "emit_each (\<lambda>x. Encode (F x)) xs w")
  from emit_each_Encode [OF e] obtain k where
    k: "stream w0 = stream w @ map F (take k xs)" "wfail w0 = wfail w" "r0 = None \<longrightarrow> k = length xs"
    by blast
  from a e have "w' = w0" and "r = None \<longrightarrow> r0 = None"
    by (auto simp: run_callbacks_def split: option.splits)
  with k show ?thesis by blast
qed

subsection \<open>A truncated header\<close>

text \<open>
  Claim C4. When the stream is exhausted where the block-size header is to be decoded
  (\<^verbatim>\<open>Decode\<close> answers \<^verbatim>\<open>io.EOF\<close>), \<open>delta\<close> on the signature stream and
  \<open>patch\<close> on the delta stream both fail with \<open>ErrUnexpectedEOF\<close>, which is neither
  \<open>EOF\<close> nor an error of gob or the operating system.
\<close>

theorem truncated_header:
  assumes "fst (Decode_int S) = Inl EOF"
  shows "fst (delta C fl (Inr S) (Inr N) (Inr wr)) = Some ErrUnexpectedEOF
       \<and> fst (patch C fl (Inr B) (Inr S) (Inr ())) = Some ErrUnexpectedEOF
       \<and> ErrUnexpectedEOF \<noteq> EOF \<and> (\<forall>s. ErrUnexpectedEOF \<noteq> External s)"
  using assms
  by (auto simp: delta_def patch_def Create_def Let_def split: prod.splits sum.splits)

theorem truncated_header_witness:
  "fst (Decode_int []) = Inl EOF
   \<and> fst (delta literal_engine \<lparr>blockSizeKiB = 6, checkFile = True\<rparr> (Inr []) (Inr [1, 2])
          (Inr (\<lambda>k. None))) = Some ErrUnexpectedEOF
   \<and> fst (patch literal_engine \<lparr>blockSizeKiB = 6, checkFile = True\<rparr> (Inr [7]) (Inr [])
          (Inr ())) = Some ErrUnexpectedEOF"
proof -
  have h: "fst (Decode_int []) = Inl EOF" by simp
  from truncated_header [OF h, where C = literal_engine
      and fl = "\<lparr>blockSizeKiB = 6, checkFile = True\<rparr>" and N = "[1, 2]" and wr = "\<lambda>k. None"
      and B = "[7]"] h
  show ?thesis by blast
qed

subsection \<open>An engine error leaves no sentinel\<close>

lemma decoded_map_FOp [simp]: "decoded (map FOp ops) = ops"
  by (induction ops) simp_all

lemma decode_end_map_FOp [simp]: "decode_end (map FOp ops) = EOF"
  by (induction ops) simp_all

lemma last_sum_no_sentinel: "filter is_sentinel ops = [] \<Longrightarrow> last_sum ops = None"
  by (simp add: last_sum_def)

lemma patch_without_sentinel:
  assumes "checkFile fl" and "filter is_sentinel ops = []"
  shows "fst (patch C fl (Inr B) (Inr (FInt n # map FOp ops)) (Inr ())) =
           (case apply_err (ApplyDelta C ((getRsync fl)\<lparr>BlockSize := n\<rparr>) B ops True) of
              Some e \<Rightarrow> Some e | None \<Rightarrow> Some NoTargetSumError)"
proof -
  from assms(2) have "filter (\<lambda>op. \<not> is_sentinel op) ops = ops"
    by (simp add: filter_empty_conv filter_id_conv)
  with assms show ?thesis
    by (simp add: patch_run Let_def last_sum_no_sentinel split: option.splits)
qed

text \<open>
  Claim C8. In a run of \<open>delta\<close> with the check enabled that reaches the engine, if
  the engine's run returns an error then \<open>delta\<close> returns that error and the delta
  stream holds the header and the operations the engine emitted so far, with no
  sentinel after them. When the engine has emitted no sentinel of its own (the spec
  has the program add it), \<open>patch\<close> with the check enabled on that stream does not
  succeed, and returns \<open>NoTargetSumError\<close> when \<^verbatim>\<open>ApplyDelta\<close> returns no error.
\<close>

theorem delta_engine_error:
  fixes C fl fl' n hl N wr B
  defines "run \<equiv> CreateDelta C ((getRsync fl)\<lparr>BlockSize := n\<rparr>) N hl True"
  defines "engine \<equiv> run_callbacks (\<lambda>op. Encode (FOp op)) (delta_ops run) (delta_err run)
                        \<lparr>stream = [FInt n], wfail = wr\<rparr>"
  assumes check: "checkFile fl" "checkFile fl'"
      and sg: "Decode_int sg = (Inr n, S)" "load_hashes S [] = Inr hl"
      and hdr: "wr 0 = None"
      and eng: "fst engine = Some e"
  shows "delta C fl (Inr sg) (Inr N) (Inr wr) = (Some e, Some (stream (snd engine)))
       \<and> (\<exists>k. stream (snd engine) = FInt n # map FOp (take k (delta_ops run)))
       \<and> (filter is_sentinel (delta_ops run) = [] \<longrightarrow>
            filter is_sentinel (decoded (tl (stream (snd engine)))) = []
          \<and> fst (patch C fl' (Inr B) (Inr (stream (snd engine))) (Inr ())) \<noteq> None
          \<and> (apply_err (ApplyDelta C ((getRsync fl')\<lparr>BlockSize := n\<rparr>) B
                (decoded (tl (stream (snd engine)))) True) = None \<longrightarrow>
              fst (patch C fl' (Inr B) (Inr (stream (snd engine))) (Inr ())) =
                Some NoTargetSumError))"
proof -
  let ?w1 = "\<lparr>stream = [FInt n], wfail = wr\<rparr>"
  obtain r w2 where e: "engine = (r, w2)" by (cases engine)
  with eng have r: "r = Some e" by simp
  from hdr have h: "Encode (FInt n) \<lparr>stream = [], wfail = wr\<rparr> = (None, ?w1)"
    by (simp add: Encode_def)
  from e have c: "run_callbacks (\<lambda>op. Encode (FOp op)) (delta_ops run) (delta_err run) ?w1
      = (r, w2)"
    by (simp add: engine_def)
  from check sg h c r have d: "delta C fl (Inr sg) (Inr N) (Inr wr) = (Some e, Some (stream w2))"
    by (simp add: delta_def Create_def Let_def run_def)
  from run_callbacks_Encode [OF c] obtain k where
    k: "stream w2 = FInt n # map FOp (take k (delta_ops run))"
    by auto
  then have p4: "\<exists>k. stream w2 = FInt n # map FOp (take k (delta_ops run))" by blast
  have p: "filter is_sentinel (decoded (tl (stream w2))) = []
      \<and> fst (patch C fl' (Inr B) (Inr (stream w2)) (Inr ())) \<noteq> None
      \<and> (apply_err (ApplyDelta C ((getRsync fl')\<lparr>BlockSize := n\<rparr>) B
            (decoded (tl (stream w2))) True) = None \<longrightarrow>
          fst (patch C fl' (Inr B) (Inr (stream w2)) (Inr ())) = Some NoTargetSumError)"
    if nosent: "filter is_sentinel (delta_ops run) = []"
  proof -
    from nosent have ns: "filter is_sentinel (take k (delta_ops run)) = []"
      by (auto simp: filter_empty_conv dest: in_set_takeD)
    note q = patch_without_sentinel [OF check(2) ns, of C B n]
    from q have "fst (patch C fl' (Inr B) (Inr (stream w2)) (Inr ())) \<noteq> None"
      by (simp add: k split: option.splits)
    moreover from q have "apply_err (ApplyDelta C ((getRsync fl')\<lparr>BlockSize := n\<rparr>) B
        (decoded (tl (stream w2))) True) = None \<longrightarrow>
        fst (patch C fl' (Inr B) (Inr (stream w2)) (Inr ())) = Some NoTargetSumError"
      by (simp add: k)
    moreover from ns have "filter is_sentinel (decoded (tl (stream w2))) = []"
      by (simp add: k)
    ultimately show ?thesis by blast
  qed
  from d p4 p show ?thesis unfolding e by simp
qed

theorem delta_engine_error_witness:
  "delta failing_engine \<lparr>blockSizeKiB = 6, checkFile = True\<rparr> (Inr [FInt 6144]) (Inr [1, 2])
     (Inr (\<lambda>k. None)) =
     (Some (External ''read error''),
      Some [FInt 6144, FOp \<lparr>Type = DATA, BlockIndex = 0, Data = Some [1]\<rparr>])
   \<and> fst (patch failing_engine \<lparr>blockSizeKiB = 6, checkFile = True\<rparr> (Inr [7])
       (Inr [FInt 6144, FOp \<lparr>Type = DATA, BlockIndex = 0, Data = Some [1]\<rparr>]) (Inr ())) \<noteq> None"
proof -
  let ?fl = "\<lparr>blockSizeKiB = 6, checkFile = True\<rparr>"
  let ?run = "CreateDelta failing_engine ((getRsync ?fl)\<lparr>BlockSize := 6144\<rparr>) [1, 2] [] True"
  let ?engine = "run_callbacks (\<lambda>op. Encode (FOp op)) (delta_ops ?run) (delta_err ?run)
                   \<lparr>stream = [FInt 6144], wfail = \<lambda>k. None\<rparr>"
  have c: "checkFile ?fl" by simp
  have sg: "Decode_int [FInt 6144] = (Inr 6144, [])" by simp
  have hl: "load_hashes [] [] = Inr []" by (simp add: load_hashes.simps)
  have hdr: "(\<lambda>k::nat. None :: error option) 0 = None" by simp
  have eng: "fst ?engine = Some (External ''read error'')"
    by (simp add: run_callbacks_def Encode_def failing_engine_def literal_engine_def)
  have ns: "filter is_sentinel (delta_ops ?run) = []"
    by (simp add: failing_engine_def literal_engine_def is_sentinel_def)
  have st: "stream (snd ?engine) =
      [FInt 6144, FOp \<lparr>Type = DATA, BlockIndex = 0, Data = Some [1]\<rparr>]"
    by (simp add: run_callbacks_def Encode_def failing_engine_def literal_engine_def)
  from delta_engine_error [OF c c sg hl hdr eng, where B = "[7]"] ns
  show ?thesis unfolding st by blast
qed

section \<open>Properties of test\<close>

lemma first_diff_Nil [simp]: "first_diff [] ys = None" "first_diff xs [] = None"
  by (cases xs; simp)+

lemma map_option_add_0 [simp]: "map_option ((+) (0::nat)) x = x"
  by (cases x) simp_all

lemma first_diff_append:
  "length xs = length ys \<Longrightarrow>
   first_diff (xs @ xs') (ys @ ys') =
     (case first_diff xs ys of Some d \<Rightarrow> Some d
      | None \<Rightarrow> map_option (\<lambda>d. length xs + d) (first_diff xs' ys'))"
proof (induction xs ys rule: list_induct2)
  case Nil
  then show ?case by (simp add: option.map_ident)
next
  case (Cons x xs y ys)
  then show ?case
    by (cases "first_diff xs' ys'") (auto split: option.splits)
qed

lemma cmp_bytes_spec:
  "i \<le> sz \<Longrightarrow> sz \<le> length b1 \<Longrightarrow> sz \<le> length b2 \<Longrightarrow>
   cmp_bytes i sz b1 b2 loc =
     (case first_diff (drop i (take sz b1)) (drop i (take sz b2)) of
        None \<Rightarrow> Inr (loc + (sz - i))
      | Some d \<Rightarrow> Inl (BytesDiffer (loc + d)))"
proof (induction i sz b1 b2 loc rule: cmp_bytes.induct)
  case (1 i sz b1 b2 location)
  show ?case
  proof (cases "i < sz")
    case False
    with 1(2) show ?thesis by (simp add: cmp_bytes.simps)
  next
    case True
    with 1(3,4) have "i < length (take sz b1)" and "i < length (take sz b2)" by simp_all
    from Cons_nth_drop_Suc [OF this(1)] Cons_nth_drop_Suc [OF this(2)] True
    have d1: "drop i (take sz b1) = b1 ! i # drop (Suc i) (take sz b1)"
      and d2: "drop i (take sz b2) = b2 ! i # drop (Suc i) (take sz b2)"
      by simp_all
    show ?thesis
    proof (cases "b1 ! i = b2 ! i")
      case ne: False
      with True show ?thesis by (simp add: cmp_bytes.simps [of i] d1 d2)
    next
      case eq: True
      with True 1 have "cmp_bytes (i + 1) sz b1 b2 (location + 1) =
        (case first_diff (drop (i + 1) (take sz b1)) (drop (i + 1) (take sz b2)) of
           None \<Rightarrow> Inr (location + 1 + (sz - (i + 1)))
         | Some d \<Rightarrow> Inl (BytesDiffer (location + 1 + d)))"
        by simp
      with True eq show ?thesis
        by (simp add: cmp_bytes.simps [of i] d1 d2 split: option.splits)
    qed
  qed
qed


lemma next_chunk_None: "next_chunk b q = None \<Longrightarrow> b @ concat q = []"
  by (auto simp: next_chunk_def split: if_splits list.splits)

lemma next_chunk_Some: "next_chunk b q = Some (c, q') \<Longrightarrow> c @ concat q' = b @ concat q"
  by (auto simp: next_chunk_def split: if_splits list.splits)

lemma min_go_min: "min_go a b = min a b"
  by (simp add: min_go_def min_def)

lemma compare_loop_spec:
  "compare_loop loc b1 b2 q1 q2 =
     map_option (\<lambda>d. BytesDiffer (loc + d)) (first_diff (b1 @ concat q1) (b2 @ concat q2))"
proof (induction loc b1 b2 q1 q2 rule: compare_loop.induct)
  case (1 loc b1 b2 q1 q2)
  show ?case
  proof (cases "next_chunk b1 q1")
    case None
    have "compare_loop loc b1 b2 q1 q2 = None"
      by (subst compare_loop.simps) (simp add: None)
    then show ?thesis unfolding next_chunk_None [OF None] by simp
  next
    case s1: (Some p1)
    obtain c1 q1' where p1: "p1 = (c1, q1')" by (cases p1)
    show ?thesis
    proof (cases "next_chunk b2 q2")
      case None
      have "compare_loop loc b1 b2 q1 q2 = None"
        by (subst compare_loop.simps) (simp add: None s1 p1)
      then show ?thesis unfolding next_chunk_None [OF None] by simp
    next
      case s2: (Some p2)
      obtain c2 q2' where p2: "p2 = (c2, q2')" by (cases p2)
      define sz where "sz = min_go (length c1) (length c2)"
      have sz: "sz \<le> length c1" "sz \<le> length c2" by (simp_all add: sz_def min_go_min)
      have td: "take sz c @ (drop sz c @ r) = c @ r" for c r :: "byte list"
        by (simp only: append_assoc [symmetric] append_take_drop_id)
      from s1 p1 have "c1 @ concat q1' = b1 @ concat q1" by (simp add: next_chunk_Some)
      then have x: "b1 @ concat q1 = take sz c1 @ (drop sz c1 @ concat q1')"
        by (simp only: td)
      from s2 p2 have "c2 @ concat q2' = b2 @ concat q2" by (simp add: next_chunk_Some)
      then have y: "b2 @ concat q2 = take sz c2 @ (drop sz c2 @ concat q2')"
        by (simp only: td)
      from sz have l: "length (take sz c1) = length (take sz c2)" by simp
      note fd = first_diff_append [OF l, of "drop sz c1 @ concat q1'" "drop sz c2 @ concat q2'"]
      have cb: "cmp_bytes 0 sz c1 c2 loc =
        (case first_diff (take sz c1) (take sz c2) of
           None \<Rightarrow> Inr (loc + sz) | Some d \<Rightarrow> Inl (BytesDiffer (loc + d)))"
        using cmp_bytes_spec [of 0 sz c1 c2 loc] sz by (simp split: option.splits)
      have unfold: "compare_loop loc b1 b2 q1 q2 =
        (case cmp_bytes 0 sz c1 c2 loc of
           Inl e \<Rightarrow> Some e
         | Inr loc' \<Rightarrow> compare_loop loc' (drop sz c1) (drop sz c2) q1' q2')"
        by (subst compare_loop.simps) (simp add: s1 p1 s2 p2 sz_def Let_def cong: sum.case_cong)
      show ?thesis
      proof (cases "first_diff (take sz c1) (take sz c2)")
        case (Some d)
        with unfold cb fd x y show ?thesis by simp
      next
        case None
        with cb have c: "cmp_bytes 0 sz c1 c2 loc = Inr (loc + sz)" by simp
        from "1.IH" [OF s1 p1 [symmetric] s2 p2 [symmetric] sz_def c]
        have "compare_loop (loc + sz) (drop sz c1) (drop sz c2) q1' q2' =
          map_option (\<lambda>d. BytesDiffer (loc + sz + d))
            (first_diff (drop sz c1 @ concat q1') (drop sz c2 @ concat q2'))" .
        with unfold c fd x y None sz show ?thesis
          by (simp add: option.map_comp comp_def add.assoc)
      qed
    qed
  qed
qed

lemma concat_reader [simp]: "concat (reader f sched) = f"
proof (induction f sched rule: reader.induct)
  case (1 f sched)
  show ?case
  proof (cases "f = []")
    case True
    then show ?thesis by (simp add: reader.simps)
  next
    case False
    show ?thesis
    proof (cases sched)
      case Nil
      with False "1.IH"(1) show ?thesis by (simp add: reader.simps [of f])
    next
      case (Cons k ks)
      with False "1.IH"(2,3) [OF False Cons refl] show ?thesis
        by (simp add: reader.simps [of f] Let_def)
    qed
  qed
qed

lemma first_diff_eq_None:
  "length xs = length ys \<Longrightarrow> first_diff xs ys = None \<longleftrightarrow> xs = ys"
  by (induction xs ys rule: list_induct2) auto

lemma test_equal_size:
  assumes "Stat_Size f1 = Inr s" "Stat_Size f2 = Inr s"
  shows "test (Inr f1) (Inr f2) =
           map_option BytesDiffer (first_diff (contents f1) (contents f2))"
  using assms by (simp add: test_def compare_loop_spec)


lemma first_diff_iff:
  "first_diff xs ys = Some k \<longleftrightarrow>
     k < length xs \<and> k < length ys \<and> xs ! k \<noteq> ys ! k \<and> (\<forall>i<k. xs ! i = ys ! i)"
proof (induction xs ys arbitrary: k rule: first_diff.induct)
  case (1 x xs y ys)
  show ?case
  proof (cases k)
    case 0
    then show ?thesis by auto
  next
    case (Suc j)
    have "(\<forall>i<Suc j. (x # xs) ! i = (y # ys) ! i) \<longleftrightarrow> x = y \<and> (\<forall>i<j. xs ! i = ys ! i)"
      by (auto simp: less_Suc_eq_0_disj)
    with Suc 1 show ?thesis by auto
  qed
qed simp_all

lemma first_diff_None_iff:
  "length xs = length ys \<Longrightarrow>
     first_diff xs ys = None \<longleftrightarrow> (\<forall>i<length xs. xs ! i = ys ! i)"
  by (simp add: first_diff_eq_None list_eq_iff_nth_eq)

text \<open>
  Claim C2. For two files whose sizes differ, \<open>test\<close> returns the size error,
  whatever the contents are and however they would be read: the sizes decide alone.
  For two files of equal size (the size that \<^verbatim>\<open>Stat\<close> reports being the length of
  the contents), \<open>test\<close> returns no error exactly when the files agree at every
  position; where they differ, it returns \<open>BytesDiffer k\<close> for the first position
  \<open>k\<close> at which they differ, and it returns no other error. This holds for every
  way the two readers cut the files into chunks.
\<close>

theorem test_compares:
  "(Stat_Size f1 = Inr s1 \<and> Stat_Size f2 = Inr s2 \<and> s1 \<noteq> s2 \<longrightarrow>
      test (Inr f1) (Inr f2) = Some FileSizeDifferent)
   \<and> (Stat_Size f1 = Inr (int (length (contents f1)))
      \<and> Stat_Size f2 = Inr (int (length (contents f2)))
      \<and> length (contents f1) = length (contents f2) \<longrightarrow>
        (test (Inr f1) (Inr f2) = None \<longleftrightarrow>
           (\<forall>i<length (contents f1). contents f1 ! i = contents f2 ! i))
      \<and> (\<forall>k. k < length (contents f1) \<and> contents f1 ! k \<noteq> contents f2 ! k
               \<and> (\<forall>i<k. contents f1 ! i = contents f2 ! i) \<longrightarrow>
             test (Inr f1) (Inr f2) = Some (BytesDiffer k))
      \<and> (\<forall>e. test (Inr f1) (Inr f2) = Some e \<longrightarrow>
             (\<exists>k<length (contents f1). e = BytesDiffer k \<and> contents f1 ! k \<noteq> contents f2 ! k
                \<and> (\<forall>i<k. contents f1 ! i = contents f2 ! i))))"
proof (intro conjI impI)
  assume "Stat_Size f1 = Inr s1 \<and> Stat_Size f2 = Inr s2 \<and> s1 \<noteq> s2"
  then show "test (Inr f1) (Inr f2) = Some FileSizeDifferent"
    by (simp add: test_def)
next
  let ?c1 = "contents f1" and ?c2 = "contents f2"
  assume a: "Stat_Size f1 = Inr (int (length ?c1)) \<and> Stat_Size f2 = Inr (int (length ?c2))
      \<and> length ?c1 = length ?c2"
  then have t: "test (Inr f1) (Inr f2) = map_option BytesDiffer (first_diff ?c1 ?c2)"
    by (intro test_equal_size) simp_all
  from a have l: "length ?c1 = length ?c2" by simp
  show "test (Inr f1) (Inr f2) = None \<longleftrightarrow> (\<forall>i<length ?c1. ?c1 ! i = ?c2 ! i)"
    by (simp add: t first_diff_None_iff [OF l])
  show "\<forall>k. k < length ?c1 \<and> ?c1 ! k \<noteq> ?c2 ! k \<and> (\<forall>i<k. ?c1 ! i = ?c2 ! i) \<longrightarrow>
          test (Inr f1) (Inr f2) = Some (BytesDiffer k)"
  proof (intro allI impI)
    fix k
    assume "k < length ?c1 \<and> ?c1 ! k \<noteq> ?c2 ! k \<and> (\<forall>i<k. ?c1 ! i = ?c2 ! i)"
    with l have "first_diff ?c1 ?c2 = Some k" by (simp add: first_diff_iff)
    then show "test (Inr f1) (Inr f2) = Some (BytesDiffer k)" by (simp add: t)
  qed
  show "\<forall>e. test (Inr f1) (Inr f2) = Some e \<longrightarrow>
          (\<exists>k<length ?c1. e = BytesDiffer k \<and> ?c1 ! k \<noteq> ?c2 ! k \<and> (\<forall>i<k. ?c1 ! i = ?c2 ! i))"
  proof (intro allI impI)
    fix e
    assume "test (Inr f1) (Inr f2) = Some e"
    with t have "map_option BytesDiffer (first_diff ?c1 ?c2) = Some e" by simp
    then obtain k where "first_diff ?c1 ?c2 = Some k" and "e = BytesDiffer k"
      by (cases "first_diff ?c1 ?c2") auto
    then show "\<exists>k<length ?c1. e = BytesDiffer k \<and> ?c1 ! k \<noteq> ?c2 ! k \<and> (\<forall>i<k. ?c1 ! i = ?c2 ! i)"
      by (auto simp: first_diff_iff)
  qed
qed

theorem test_compares_witness:
  "test (Inr \<lparr>Stat_Size = Inr 3, contents = [1, 2, 3], reads = [2]\<rparr>)
        (Inr \<lparr>Stat_Size = Inr 3, contents = [1, 2, 4], reads = [1, 0, 5]\<rparr>) = Some (BytesDiffer 2)
   \<and> test (Inr \<lparr>Stat_Size = Inr 3, contents = [1, 2, 3], reads = [2]\<rparr>)
          (Inr \<lparr>Stat_Size = Inr 2, contents = [1, 2], reads = []\<rparr>) = Some FileSizeDifferent"
proof -
  let ?f1 = "\<lparr>Stat_Size = Inr 3, contents = [1, 2, 3 :: byte], reads = [2]\<rparr>"
  let ?f2 = "\<lparr>Stat_Size = Inr 3, contents = [1, 2, 4 :: byte], reads = [1, 0, 5]\<rparr>"
  let ?f3 = "\<lparr>Stat_Size = Inr 2, contents = [1, 2 :: byte], reads = []\<rparr>"
  have s: "Stat_Size ?f1 = Inr (int (length (contents ?f1)))
      \<and> Stat_Size ?f2 = Inr (int (length (contents ?f2)))
      \<and> length (contents ?f1) = length (contents ?f2)"
    by simp
  have d: "(2::nat) < length (contents ?f1) \<and> contents ?f1 ! 2 \<noteq> contents ?f2 ! 2
      \<and> (\<forall>i<2. contents ?f1 ! i = contents ?f2 ! i)"
    by (simp add: less_2_cases_iff)
  have u: "Stat_Size ?f1 = Inr 3 \<and> Stat_Size ?f3 = Inr 2 \<and> (3::int) \<noteq> 2" by simp
  from test_compares [of ?f1 3 ?f3 2] u
  have r2: "test (Inr ?f1) (Inr ?f3) = Some FileSizeDifferent" by blast
  from test_compares [of ?f1 s1 ?f2 s2] s d
  have r1: "test (Inr ?f1) (Inr ?f2) = Some (BytesDiffer 2)" by blast
  from r1 r2 show ?thesis by (rule conjI)
qed

end
